theory Spec2Isabelle
  imports Complex_Main
begin

section \<open>Python strings\<close>

text \<open>
  A Python \<^verbatim>\<open>str\<close> is a sequence of Unicode code points and \<^verbatim>\<open>len\<close> counts code
  points, so a string is modelled as a list of code points (natural numbers) and
  \<^verbatim>\<open>len\<close> is \<^const>\<open>length\<close>.  ASCII literals of the source are written with \<open>ascii\<close>.
\<close>

type_synonym pystr = "nat list"

definition ascii :: "string \<Rightarrow> pystr" where
  "ascii s = map of_char s"

definition NL :: pystr where
  "NL = [10]"

text \<open>\<^verbatim>\<open>str.isspace\<close> on one code point: the code points Python 3 treats as whitespace.\<close>

definition isspace :: "nat \<Rightarrow> bool" where
  "isspace c \<longleftrightarrow>
     (9 \<le> c \<and> c \<le> 13) \<or> (28 \<le> c \<and> c \<le> 32) \<or> c = 133 \<or> c = 160 \<or> c = 5760 \<or>
     (8192 \<le> c \<and> c \<le> 8202) \<or> c = 8232 \<or> c = 8233 \<or> c = 8239 \<or> c = 8287 \<or> c = 12288"

text \<open>\<^verbatim>\<open>s.strip()\<close>: leading and trailing whitespace removed.\<close>

definition strip_str :: "pystr \<Rightarrow> pystr" where
  "strip_str s = rev (dropWhile isspace (rev (dropWhile isspace s)))"

text \<open>
  \<^verbatim>\<open>s.split(sep)\<close> for a non-empty separator: the pieces between the non-overlapping
  occurrences of \<open>sep\<close>, found left to right.  The source calls it with the literals
  \<^verbatim>\<open>"\n"\<close> and \<^verbatim>\<open>SPLIT_TOKEN\<close> only (Python raises \<^verbatim>\<open>ValueError\<close> on an empty
  separator).  \<open>acc\<close> holds the current piece, reversed.
\<close>

fun split_acc :: "pystr \<Rightarrow> pystr \<Rightarrow> pystr \<Rightarrow> pystr list" where
  "split_acc sep acc [] = [rev acc]"
| "split_acc sep acc (x # xs) =
     (if take (length sep) (x # xs) = sep
      then rev acc # split_acc sep [] (drop (length sep - 1) xs)
      else split_acc sep (x # acc) xs)"

definition split_str :: "pystr \<Rightarrow> pystr \<Rightarrow> pystr list" where
  "split_str sep s = split_acc sep [] s"

text \<open>\<^verbatim>\<open>sep.join(xs)\<close>.\<close>

fun join_str :: "pystr \<Rightarrow> pystr list \<Rightarrow> pystr" where
  "join_str sep [] = []"
| "join_str sep [x] = x"
| "join_str sep (x # y # ys) = x @ sep @ join_str sep (y # ys)"

text \<open>
  \<^verbatim>\<open>re.sub(r"\[.*?\]|\{.*?\}", "", s)\<close>.  At a \<^verbatim>\<open>[\<close> the non-greedy \<^verbatim>\<open>.*?\]\<close> matches up
  to the first \<^verbatim>\<open>]\<close>, provided no newline comes before it (\<^verbatim>\<open>.\<close> does not match a
  newline); likewise for braces.  \<open>until_close c xs\<close> is what follows that first closing
  character, if the match succeeds.  A matched span is deleted and the scan goes on
  behind it; an unmatched character is kept.
\<close>

fun until_close :: "nat \<Rightarrow> pystr \<Rightarrow> pystr option" where
  "until_close c [] = None"
| "until_close c (x # xs) =
     (if x = c then Some xs else if x = 10 then None else until_close c xs)"

lemma until_close_length: "until_close c xs = Some r \<Longrightarrow> length r < Suc (length xs)"
  by (induction xs) (auto split: if_splits)

function strip_annotations :: "pystr \<Rightarrow> pystr" where
  "strip_annotations [] = []"
| "strip_annotations (x # xs) =
     (if x = 91 then
        (case until_close 93 xs of
           Some r \<Rightarrow> strip_annotations r
         | None \<Rightarrow> x # strip_annotations xs)
      else if x = 123 then
        (case until_close 125 xs of
           Some r \<Rightarrow> strip_annotations r
         | None \<Rightarrow> x # strip_annotations xs)
      else x # strip_annotations xs)"
  by pat_completeness auto
termination
  by (relation "measure length") (auto dest: until_close_length)


section \<open>Exceptions\<close>

text \<open>
  The exceptions the modelled code can end with.  \<open>SystemExit\<close> is \<^verbatim>\<open>sys.exit(1)\<close>; it is
  not an \<^verbatim>\<open>Exception\<close>, so \<^verbatim>\<open>except Exception\<close> does not catch it.
\<close>

datatype exn = SystemExit | RequestException | ZeroDivisionError | UnicodeDecodeError | OtherException

section \<open>Cache store (\<^verbatim>\<open>TranslationCache\<close>)\<close>

type_synonym cache = "pystr \<rightharpoonup> pystr"

text \<open>
  The state of \<^verbatim>\<open>cache.json\<close> as \<^verbatim>\<open>_load_cache\<close> meets it: the file does not exist
  (\<open>Missing\<close>); it exists but its bytes are not valid UTF-8, so reading the text-mode
  handle opened with \<^verbatim>\<open>encoding="utf-8"\<close> raises \<^verbatim>\<open>UnicodeDecodeError\<close> (\<open>Undecodable\<close>);
  it is text that \<^verbatim>\<open>json.load\<close> rejects with \<^verbatim>\<open>JSONDecodeError\<close> (\<open>Unparsable\<close>); or it
  holds a JSON object of strings (\<open>Stored\<close>).
\<close>

datatype cache_file = Missing | Undecodable | Unparsable | Stored cache

text \<open>
  \<^verbatim>\<open>_load_cache\<close>: the \<^verbatim>\<open>try\<close> block has the single handler
  \<^verbatim>\<open>except json.JSONDecodeError\<close>; any other exception leaves the function.
\<close>

definition load_cache :: "cache_file \<Rightarrow> exn + cache" where
  "load_cache f =
     (case f of
        Missing \<Rightarrow> Inr Map.empty
      | Undecodable \<Rightarrow> Inl UnicodeDecodeError
      | Unparsable \<Rightarrow> Inr Map.empty
      | Stored m \<Rightarrow> Inr m)"

text \<open>\<^verbatim>\<open>TranslationCache.__init__\<close>: \<^verbatim>\<open>self.cache = self._load_cache()\<close>.\<close>

definition TranslationCache :: "cache_file \<Rightarrow> exn + cache" where
  "TranslationCache f = load_cache f"

text \<open>
  \<^verbatim>\<open>get\<close> is \<^verbatim>\<open>dict.get\<close>; \<^verbatim>\<open>set\<close> stores the entry (and rewrites the file with the
  whole dictionary, which the model does not track).
\<close>

definition cache_get :: "cache \<Rightarrow> pystr \<Rightarrow> pystr option" where
  "cache_get c text = c text"

definition cache_set :: "cache \<Rightarrow> pystr \<Rightarrow> pystr \<Rightarrow> cache" where
  "cache_set c text translation = c(text \<mapsto> translation)"

section \<open>Translation client (\<^verbatim>\<open>DeepLAPI.translate\<close>)\<close>

text \<open>
  What one \<^verbatim>\<open>requests.post\<close> to the translate endpoint leads to: a well-formed reply
  carrying \<^verbatim>\<open>translations[0].text\<close>; a \<^verbatim>\<open>RequestException\<close> (transport error or an error
  status other than 403, raised by \<^verbatim>\<open>raise_for_status\<close>); status 403; or a reply whose
  body lacks the expected fields (\<^verbatim>\<open>KeyError\<close> and the like).  The remote service is a
  parameter: \<open>api n text\<close> is the outcome of the post number \<open>n\<close> of a file's run.
\<close>

datatype remote = Translated pystr | RequestFailed | Forbidden | Malformed

type_synonym api = "nat \<Rightarrow> pystr \<Rightarrow> remote"

text \<open>Whether \<^verbatim>\<open>translate(text)\<close> posts a request: not for blank text.\<close>

definition posts_request :: "pystr \<Rightarrow> bool" where
  "posts_request text \<longleftrightarrow> strip_str text \<noteq> []"

definition translate :: "api \<Rightarrow> nat \<Rightarrow> pystr \<Rightarrow> exn + pystr" where
  "translate svc n text =
     (if strip_str text = [] then Inr []
      else (case svc n text of
              Translated t \<Rightarrow> Inr t
            | RequestFailed \<Rightarrow> Inr []
            | Forbidden \<Rightarrow> Inl SystemExit
            | Malformed \<Rightarrow> Inl OtherException))"

section \<open>File processor (\<^verbatim>\<open>process_srt_file\<close>)\<close>

definition SPLIT_TOKEN :: pystr where
  "SPLIT_TOKEN = ascii ''<DEEPL_SPLIT_TOKEN>''"

text \<open>The placeholder of a line without translation, as code points.\<close>

definition FAILED_TEXT :: pystr where
  "FAILED_TEXT = [12304, 32763, 35793, 22833, 36133, 25110, 21407, 25991, 20026, 31354, 12305]"

text \<open>
  The clean text of a unit whose lines are \<open>lines\<close> (\<^verbatim>\<open>index, timestamp, *text_lines = lines\<close>):
  the text lines joined by a space, annotations removed, stripped.
\<close>

definition english_text_of :: "pystr list \<Rightarrow> pystr" where
  "english_text_of lines =
     strip_str (strip_annotations (join_str (ascii '' '') (drop 2 lines)))"

subsection \<open>Cutting the file into units\<close>

text \<open>
  \<^verbatim>\<open>\d\<close> in a \<^verbatim>\<open>str\<close> pattern matches the Unicode decimal digits: the ASCII digits and
  the digits of other scripts.  The table of the latter belongs to Python, not to the
  repository, and is the parameter \<open>other_digits\<close>; only code points above 127 are
  looked up in it.
\<close>

definition is_digit :: "(nat \<Rightarrow> bool) \<Rightarrow> nat \<Rightarrow> bool" where
  "is_digit other_digits c \<longleftrightarrow> (48 \<le> c \<and> c \<le> 57) \<or> (127 < c \<and> other_digits c)"

text \<open>\<^verbatim>\<open>\d{k}\<close> at the start of \<open>s\<close>: what follows the \<open>k\<close> digits, if they are there.\<close>

fun digits_n :: "(nat \<Rightarrow> bool) \<Rightarrow> nat \<Rightarrow> pystr \<Rightarrow> pystr option" where
  "digits_n d 0 s = Some s"
| "digits_n d (Suc k) [] = None"
| "digits_n d (Suc k) (x # xs) = (if is_digit d x then digits_n d k xs else None)"

text \<open>A literal at the start of \<open>s\<close>: what follows it, if it is there.\<close>

fun literal :: "pystr \<Rightarrow> pystr \<Rightarrow> pystr option" where
  "literal [] s = Some s"
| "literal (c # cs) [] = None"
| "literal (c # cs) (x # xs) = (if x = c then literal cs xs else None)"

text \<open>\<^verbatim>\<open>\d{2}:\d{2}:\d{2},\d{3}\<close>.\<close>

definition match_time :: "(nat \<Rightarrow> bool) \<Rightarrow> pystr \<Rightarrow> pystr option" where
  "match_time d s =
     Option.bind (digits_n d 2 s) (\<lambda>s1.
     Option.bind (literal (ascii '':'') s1) (\<lambda>s2.
     Option.bind (digits_n d 2 s2) (\<lambda>s3.
     Option.bind (literal (ascii '':'') s3) (\<lambda>s4.
     Option.bind (digits_n d 2 s4) (\<lambda>s5.
     Option.bind (literal (ascii '','') s5) (\<lambda>s6.
     digits_n d 3 s6))))))"

text \<open>
  The separator pattern \<^verbatim>\<open>\d+\n\d{2}:\d{2}:\d{2},\d{3} --> \d{2}:\d{2}:\d{2},\d{3}\n\<close> at the
  start of \<open>s\<close>: what follows the match, if there is one.  The greedy \<^verbatim>\<open>\d+\<close> takes the
  whole run of digits; a shorter run could not be followed by the newline.
\<close>

definition match_separator :: "(nat \<Rightarrow> bool) \<Rightarrow> pystr \<Rightarrow> pystr option" where
  "match_separator d s =
     (if takeWhile (is_digit d) s = [] then None
      else
        Option.bind (literal NL (dropWhile (is_digit d) s)) (\<lambda>s1.
        Option.bind (match_time d s1) (\<lambda>s2.
        Option.bind (literal (ascii '' --> '') s2) (\<lambda>s3.
        Option.bind (match_time d s3) (\<lambda>s4.
        literal NL s4)))))"

text \<open>
  What a successful match leaves is a suffix of the text, and the matched part holds
  the separator's two newlines: needed for the termination of the split below.
\<close>

lemma digits_n_split: "digits_n d k s = Some r \<Longrightarrow> \<exists>m. s = m @ r"
proof (induction d k s rule: digits_n.induct)
  case (1 d s)
  then show ?case by simp
next
  case (2 d k)
  then show ?case by simp
next
  case (3 d k x xs)
  then obtain m where "xs = m @ r" by (auto split: if_splits)
  then have "x # xs = (x # m) @ r" by simp
  then show ?case by blast
qed

lemma literal_split: "literal l s = Some r \<Longrightarrow> s = l @ r"
  by (induction l s rule: literal.induct) (auto split: if_splits)

lemma match_time_split: "match_time d s = Some r \<Longrightarrow> \<exists>m. s = m @ r"
proof -
  assume "match_time d s = Some r"
  then obtain s1 s2 s3 s4 s5 s6 where
    "digits_n d 2 s = Some s1" "literal (ascii '':'') s1 = Some s2"
    "digits_n d 2 s2 = Some s3" "literal (ascii '':'') s3 = Some s4"
    "digits_n d 2 s4 = Some s5" "literal (ascii '','') s5 = Some s6"
    "digits_n d 3 s6 = Some r"
    by (auto simp add: match_time_def bind_eq_Some_conv)
  then obtain m1 m3 m5 m7 where
    "s = m1 @ s1" "s1 = ascii '':'' @ s2" "s2 = m3 @ s3" "s3 = ascii '':'' @ s4"
    "s4 = m5 @ s5" "s5 = ascii '','' @ s6" "s6 = m7 @ r"
    by (metis digits_n_split literal_split)
  then have "s = (m1 @ ascii '':'' @ m3 @ ascii '':'' @ m5 @ ascii '','' @ m7) @ r"
    by simp
  then show ?thesis by blast
qed

lemma match_separator_split:
  assumes "match_separator d s = Some r"
  shows "\<exists>m. s = m @ r \<and> 2 \<le> count_list m 10 \<and> m \<noteq> []"
proof -
  from assms obtain s1 s2 s3 s4 where
    ne: "takeWhile (is_digit d) s \<noteq> []" and
    a: "literal NL (dropWhile (is_digit d) s) = Some s1" and
    b: "match_time d s1 = Some s2" and
    c: "literal (ascii '' --> '') s2 = Some s3" and
    e: "match_time d s3 = Some s4" and
    f: "literal NL s4 = Some r"
    by (auto simp add: match_separator_def bind_eq_Some_conv split: if_splits)
  from b e obtain m2 m4 where "s1 = m2 @ s2" "s3 = m4 @ s4"
    by (metis match_time_split)
  with literal_split [OF a] literal_split [OF c] literal_split [OF f]
  have "dropWhile (is_digit d) s = NL @ m2 @ ascii '' --> '' @ m4 @ NL @ r"
    by simp
  then have "s = (takeWhile (is_digit d) s @ NL @ m2 @ ascii '' --> '' @ m4 @ NL) @ r"
    by (metis takeWhile_dropWhile_id append.assoc)
  moreover have "2 \<le> count_list (takeWhile (is_digit d) s @ NL @ m2 @ ascii '' --> '' @ m4 @ NL) 10"
    by (simp add: NL_def)
  ultimately show ?thesis by (metis append_is_Nil_conv ne)
qed

lemma match_separator_shorter:
  "match_separator d s = Some r \<Longrightarrow> length r < length s"
  using match_separator_split [of d s r] by (auto simp add: neq_Nil_conv)

text \<open>
  \<^verbatim>\<open>re.split\<close> with the separator pattern, whose whole text is its one group: the text
  before the first match, then for every match the matched text and the text up to the
  next match (or the end).  Matches are looked for from left to right.
\<close>

function re_split :: "(nat \<Rightarrow> bool) \<Rightarrow> pystr \<Rightarrow> pystr \<Rightarrow> pystr list" where
  "re_split d acc [] = [rev acc]"
| "re_split d acc (x # xs) =
     (case match_separator d (x # xs) of
        Some r \<Rightarrow> rev acc # take (Suc (length xs) - length r) (x # xs) # re_split d [] r
      | None \<Rightarrow> re_split d (x # acc) xs)"
  by pat_completeness auto
termination
  by (relation "measure (\<lambda>(d, acc, s). length s)") (auto dest: match_separator_shorter)

text \<open>
  \<^verbatim>\<open>[blocks[i] + blocks[i+1] for i in range(0, len(blocks), 2)]\<close>; on a list of odd length
  the last \<^verbatim>\<open>blocks[i+1]\<close> raises \<^verbatim>\<open>IndexError\<close>.
\<close>

fun pair_up :: "pystr list \<Rightarrow> exn + pystr list" where
  "pair_up [] = Inr []"
| "pair_up [x] = Inl OtherException"
| "pair_up (x # y # zs) = (case pair_up zs of Inl e \<Rightarrow> Inl e | Inr r \<Rightarrow> Inr ((x @ y) # r))"

text \<open>
  The units of a file's text, lines 197 to 200: the text is stripped and split; what
  stands before the first separator is dropped; every separator is joined with the text
  that follows it.
\<close>

definition srt_units :: "(nat \<Rightarrow> bool) \<Rightarrow> pystr \<Rightarrow> exn + pystr list" where
  "srt_units d content = pair_up (tl (re_split d [] (strip_str content)))"

subsection \<open>Planning loop\<close>

record plan_state =
  batches :: "(pystr \<times> pystr list) list"
  current_batch_text :: pystr
  current_batch_indices :: "pystr list"
  all_translations :: "pystr \<rightharpoonup> pystr"

definition plan_init :: plan_state where
  "plan_init = \<lparr>batches = [], current_batch_text = [], current_batch_indices = [],
                 all_translations = Map.empty\<rparr>"

text \<open>Closing the current batch: it is appended to \<open>batches\<close> and a new one is started.\<close>

definition close_batch :: "plan_state \<Rightarrow> plan_state" where
  "close_batch st =
     st\<lparr>batches := batches st @ [(current_batch_text st, current_batch_indices st)],
        current_batch_text := [], current_batch_indices := []\<rparr>"

text \<open>One iteration of the loop over \<^verbatim>\<open>indexed_blocks\<close>.\<close>

definition plan_step :: "cache \<Rightarrow> int \<Rightarrow> plan_state \<Rightarrow> pystr \<Rightarrow> plan_state" where
  "plan_step c max_chars st block =
     (let lines = split_str NL block in
      if length lines < 2 then st
      else
        let english_text = english_text_of lines in
        (case cache_get c english_text of
           Some cached_translation \<Rightarrow>
             st\<lparr>all_translations := (all_translations st)(english_text \<mapsto> cached_translation)\<rparr>
         | None \<Rightarrow>
             let text_to_add = english_text @ SPLIT_TOKEN;
                 st1 = (if int (length (current_batch_text st)) + int (length text_to_add) > max_chars
                           \<and> current_batch_text st \<noteq> []
                        then close_batch st else st)
             in st1\<lparr>current_batch_text := current_batch_text st1 @ text_to_add,
                    current_batch_indices := current_batch_indices st1 @ [english_text]\<rparr>))"

text \<open>The statement after the loop: the last batch is kept if it is not empty.\<close>

definition plan_flush :: "plan_state \<Rightarrow> (pystr \<times> pystr list) list" where
  "plan_flush st =
     (if current_batch_text st \<noteq> []
      then batches st @ [(current_batch_text st, current_batch_indices st)]
      else batches st)"

definition plan_loop :: "cache \<Rightarrow> int \<Rightarrow> pystr list \<Rightarrow> plan_state" where
  "plan_loop c max_chars indexed_blocks = foldl (plan_step c max_chars) plan_init indexed_blocks"

definition plan_batches :: "cache \<Rightarrow> int \<Rightarrow> pystr list \<Rightarrow> (pystr \<times> pystr list) list" where
  "plan_batches c max_chars indexed_blocks = plan_flush (plan_loop c max_chars indexed_blocks)"

subsection \<open>Translation loop\<close>

record run_state =
  result_map :: "pystr \<rightharpoonup> pystr"
  store :: cache
  posts :: "pystr list"

text \<open>
  The body of \<^verbatim>\<open>for i, original_text in enumerate(original_texts)\<close>: the pair is
  recorded when segment \<open>i\<close> exists and is not blank.
\<close>

definition record_segment :: "pystr list \<Rightarrow> nat \<times> pystr \<Rightarrow> run_state \<Rightarrow> run_state" where
  "record_segment translated_segments p s =
     (case p of (i, original_text) \<Rightarrow>
        if i < length translated_segments \<and> strip_str (translated_segments ! i) \<noteq> []
        then
          let translation = strip_str (translated_segments ! i) in
          s\<lparr>result_map := (result_map s)(original_text \<mapsto> translation),
            store := cache_set (store s) original_text translation\<rparr>
        else s)"

text \<open>What is done with one batch's response (an empty response only prints a message).\<close>

definition record_batch :: "pystr \<Rightarrow> pystr list \<Rightarrow> run_state \<Rightarrow> run_state" where
  "record_batch translated_batch_text original_texts s =
     (if translated_batch_text \<noteq> []
      then fold (record_segment (split_str SPLIT_TOKEN translated_batch_text))
             (enumerate 0 original_texts) s
      else s)"

text \<open>
  The loop over the batches.  It stops at the first exception that leaves
  \<^verbatim>\<open>translate\<close>; the state reached (the cache is already on disk) is returned with it.
\<close>

fun translate_batches :: "api \<Rightarrow> (pystr \<times> pystr list) list \<Rightarrow> run_state \<Rightarrow> exn option \<times> run_state" where
  "translate_batches svc [] s = (None, s)"
| "translate_batches svc (b # bs) s =
     (let s1 = (if posts_request (fst b) then s\<lparr>posts := posts s @ [fst b]\<rparr> else s) in
      case translate svc (length (posts s)) (fst b) of
        Inl e \<Rightarrow> (Some e, s1)
      | Inr translated_batch_text \<Rightarrow>
          translate_batches svc bs (record_batch translated_batch_text (snd b) s1))"

subsection \<open>Reassembly\<close>

text \<open>
  \<^verbatim>\<open>translated = all_translations.get(t)\<close>, then
  \<^verbatim>\<open>if not translated: translated = cache.get(t) or PLACEHOLDER\<close>: \<^verbatim>\<open>None\<close> and the empty
  string are both false in Python.
\<close>

definition translated_for :: "(pystr \<rightharpoonup> pystr) \<Rightarrow> cache \<Rightarrow> pystr \<Rightarrow> pystr" where
  "translated_for all_tr c english_text =
     (case all_tr english_text of
        Some (x # xs) \<Rightarrow> x # xs
      | _ \<Rightarrow> (case cache_get c english_text of
                Some (y # ys) \<Rightarrow> y # ys
              | _ \<Rightarrow> FAILED_TEXT))"

definition render_block :: "(pystr \<rightharpoonup> pystr) \<Rightarrow> cache \<Rightarrow> pystr \<Rightarrow> pystr" where
  "render_block all_tr c block =
     (let lines = split_str NL block in
      if length lines < 2 then block
      else
        let english_text = english_text_of lines;
            translated = translated_for all_tr c english_text;
            original_lines = filter (\<lambda>l. strip_str l \<noteq> []) (drop 2 lines)
        in join_str NL ([lines ! 0, lines ! 1] @ original_lines @ [translated]))"

text \<open>The text written to the output file.\<close>

definition reassemble :: "pystr list \<Rightarrow> (pystr \<rightharpoonup> pystr) \<Rightarrow> cache \<Rightarrow> pystr" where
  "reassemble indexed_blocks all_tr c =
     join_str (NL @ NL) (map (render_block all_tr c) indexed_blocks) @ NL @ NL"

subsection \<open>The whole file\<close>

text \<open>
  How \<^verbatim>\<open>process_srt_file\<close> ends: the output file is written with the given contents;
  an exception was caught by \<^verbatim>\<open>except Exception\<close> and nothing was written; or the
  process exited.  \<open>process_blocks\<close> is the function from \<^verbatim>\<open>indexed_blocks\<close> on, the
  units the file was cut into; \<open>process_srt_file\<close> is the function on the text read from
  the file (reading and decoding the file, and writing the output file, are taken to
  succeed).
\<close>

datatype outcome = Written pystr | Failed | Exited

definition process_blocks :: "api \<Rightarrow> int \<Rightarrow> pystr list \<Rightarrow> cache \<Rightarrow> outcome \<times> cache \<times> pystr list" where
  "process_blocks svc max_chars indexed_blocks c =
     (let st = plan_loop c max_chars indexed_blocks;
          bs = plan_flush st
      in case translate_batches svc bs \<lparr>result_map = all_translations st, store = c, posts = []\<rparr> of
           (None, s) \<Rightarrow> (Written (reassemble indexed_blocks (result_map s) (store s)), store s, posts s)
         | (Some SystemExit, s) \<Rightarrow> (Exited, store s, posts s)
         | (Some _, s) \<Rightarrow> (Failed, store s, posts s))"

definition process_srt_file ::
  "(nat \<Rightarrow> bool) \<Rightarrow> api \<Rightarrow> int \<Rightarrow> pystr \<Rightarrow> cache \<Rightarrow> outcome \<times> cache \<times> pystr list" where
  "process_srt_file other_digits svc max_chars content c =
     (case srt_units other_digits content of
        Inl e \<Rightarrow> (Failed, c, [])
      | Inr indexed_blocks \<Rightarrow> process_blocks svc max_chars indexed_blocks c)"

section \<open>Usage query (\<^verbatim>\<open>DeepLAPI.get_usage\<close>)\<close>







section \<open>Main program\<close>

text \<open>The three headlines the quota check can print.\<close>

datatype notice = Exhausted | Warning | Passed


text \<open>
  The loop over the files found, each given as its text.  \<open>svcs k\<close> is the remote service
  as file number \<open>k\<close> meets it.  The loop ends early when a file's processing exits.
\<close>

fun process_files ::
  "(nat \<Rightarrow> bool) \<Rightarrow> (nat \<Rightarrow> api) \<Rightarrow> int \<Rightarrow> nat \<Rightarrow> cache \<Rightarrow> pystr list \<Rightarrow> outcome list" where
  "process_files d svcs max_chars k c [] = []"
| "process_files d svcs max_chars k c (f # fs) =
     (case process_srt_file d (svcs k) max_chars f c of
        (Exited, c1, p) \<Rightarrow> [Exited]
      | (r, c1, p) \<Rightarrow> r # process_files d svcs max_chars (Suc k) c1 fs)"

text \<open>
  The run of \<^verbatim>\<open>main\<close> once the configuration is loaded: the notice printed by the quota
  check (if it got that far), the exit code, and how each file opened ended.
\<close>

record run =
  printed :: "notice option"
  exit_code :: nat
  files_done :: "outcome list"

text \<open>Step 3 of \<^verbatim>\<open>main\<close>: the cache is loaded, then the files are processed.\<close>

definition run_files ::
  "notice \<Rightarrow> cache_file \<Rightarrow> (nat \<Rightarrow> bool) \<Rightarrow> (nat \<Rightarrow> api) \<Rightarrow> int \<Rightarrow> pystr list \<Rightarrow> run" where
  "run_files n cf d svcs max_chars srt_files =
     (case TranslationCache cf of
        Inl e \<Rightarrow> \<lparr>printed = Some n, exit_code = 1, files_done = []\<rparr>
      | Inr c \<Rightarrow>
          let rs = process_files d svcs max_chars 0 c srt_files in
          \<lparr>printed = Some n, exit_code = (if Exited \<in> set rs then 1 else 0), files_done = rs\<rparr>)"


section \<open>Notions used by the properties\<close>

text \<open>
  The batch string that belongs to a list of source texts: each text followed by the
  delimiter.
\<close>

definition batch_string :: "pystr list \<Rightarrow> pystr" where
  "batch_string texts = concat (map (\<lambda>t. t @ SPLIT_TOKEN) texts)"

text \<open>
  A unit is well formed when it has at least two lines (the loops skip the others);
  \<open>unit_text\<close> is its clean text; \<open>unit_texts\<close> are the clean texts of the well-formed
  units in file order, and \<open>uncached_texts\<close> those among them that are not cache hits.
\<close>

definition well_formed :: "pystr \<Rightarrow> bool" where
  "well_formed block \<longleftrightarrow> 2 \<le> length (split_str NL block)"

definition unit_text :: "pystr \<Rightarrow> pystr" where
  "unit_text block = english_text_of (split_str NL block)"

definition unit_texts :: "pystr list \<Rightarrow> pystr list" where
  "unit_texts indexed_blocks = map unit_text (filter well_formed indexed_blocks)"

definition uncached_texts :: "cache \<Rightarrow> pystr list \<Rightarrow> pystr list" where
  "uncached_texts c indexed_blocks = filter (\<lambda>t. cache_get c t = None) (unit_texts indexed_blocks)"

text \<open>The source texts the planner has put into batches so far, in order.\<close>

definition pending :: "plan_state \<Rightarrow> pystr list" where
  "pending st = concat (map snd (batches st)) @ current_batch_indices st"

text \<open>
  A batch \<open>(text, sources)\<close> respects the budget: its text is the batch string of its
  sources, it is not empty, and its length is within the budget unless it holds a single
  source text that, with its delimiter, is already longer than the budget.
\<close>

definition within_budget :: "int \<Rightarrow> pystr \<times> pystr list \<Rightarrow> bool" where
  "within_budget max_chars b \<longleftrightarrow>
     fst b = batch_string (snd b) \<and> snd b \<noteq> [] \<and>
     (int (length (fst b)) \<le> max_chars \<or>
      (length (snd b) = 1 \<and> max_chars < int (length (hd (snd b) @ SPLIT_TOKEN))))"

text \<open>The invariant of the planning loop.\<close>

definition plan_inv :: "int \<Rightarrow> plan_state \<Rightarrow> bool" where
  "plan_inv max_chars st \<longleftrightarrow>
     list_all (within_budget max_chars) (batches st) \<and>
     current_batch_text st = batch_string (current_batch_indices st) \<and>
     (current_batch_indices st = [] \<or>
      within_budget max_chars (current_batch_text st, current_batch_indices st))"




text \<open>
  The result map and the cache hold the same for every text of \<open>U\<close>: the invariant of the
  translation loop.
\<close>

definition agree_on :: "pystr set \<Rightarrow> run_state \<Rightarrow> bool" where
  "agree_on U s \<longleftrightarrow> (\<forall>t \<in> U. result_map s t = store s t)"

text \<open>
  Two units with the same caption text, used as concrete inputs below; \<open>unit_a @ unit_b\<close>
  is the text of a file that holds the two.
\<close>

definition unit_a :: pystr where
  "unit_a = ascii ''1'' @ NL @ ascii ''00:00:01,000 --> 00:00:02,000'' @ NL @ ascii ''Hi'' @ NL @ NL"

definition unit_b :: pystr where
  "unit_b = ascii ''2'' @ NL @ ascii ''00:00:03,000 --> 00:00:04,000'' @ NL @ ascii ''Hi''"

text \<open>
  The unit of the specification's example, and the translation stored for its clean text
  \<^verbatim>\<open>Hello  world\<close> there (five code points).
\<close>

definition unit_c :: pystr where
  "unit_c = ascii ''1'' @ NL @ ascii ''00:00:01,000 --> 00:00:02,000'' @ NL @
            ascii ''Hello [music] world'' @ NL"

definition hello_zh :: pystr where
  "hello_zh = [20320, 22909, 32, 19990, 30028]"

text \<open>
  Two remote services: one that answers every request with the same text, one that
  rejects every request with status 403.  \<open>out_ab\<close> is the output file for \<open>unit_a\<close> and
  \<open>unit_b\<close> when their text is translated as \<^verbatim>\<open>Y\<close>.
\<close>

definition answers :: "pystr \<Rightarrow> api" where
  "answers reply = (\<lambda>n text. Translated reply)"

definition refuses :: api where
  "refuses = (\<lambda>n text. Forbidden)"

definition out_ab :: pystr where
  "out_ab = ascii ''1'' @ NL @ ascii ''00:00:01,000 --> 00:00:02,000'' @ NL @ ascii ''Hi'' @ NL @
            ascii ''Y'' @ NL @ NL @
            ascii ''2'' @ NL @ ascii ''00:00:03,000 --> 00:00:04,000'' @ NL @ ascii ''Hi'' @ NL @
            ascii ''Y'' @ NL @ NL"


section \<open>The batch planner\<close>

lemmas string_defs = ascii_def NL_def split_str_def strip_str_def isspace_def SPLIT_TOKEN_def
  english_text_of_def

lemmas plan_defs = plan_batches_def plan_loop_def plan_step_def plan_init_def plan_flush_def
  cache_get_def close_batch_def Let_def

lemmas unit_defs = uncached_texts_def unit_texts_def well_formed_def unit_text_def

lemmas parse_defs = srt_units_def match_separator_def match_time_def is_digit_def
  numeral_2_eq_2 numeral_3_eq_3

lemma two_units_file:
  "srt_units (\<lambda>c. False) (unit_a @ unit_b) = Inr [unit_a, unit_b]"
  by (simp add: parse_defs string_defs unit_a_def unit_b_def)

lemma SPLIT_TOKEN_nonempty: "SPLIT_TOKEN \<noteq> []"
  by (simp add: SPLIT_TOKEN_def ascii_def)

lemma batch_string_simps:
  "batch_string [] = []"
  "batch_string (ts @ [t]) = batch_string ts @ t @ SPLIT_TOKEN"
  by (simp_all add: batch_string_def)

lemma batch_string_empty: "batch_string ts = [] \<longleftrightarrow> ts = []"
  by (cases ts) (simp_all add: batch_string_def SPLIT_TOKEN_nonempty)

lemma plan_step_malformed: "\<not> well_formed block \<Longrightarrow> plan_step c m st block = st"
  by (simp add: plan_step_def well_formed_def Let_def)

lemma plan_step_cached:
  "well_formed block \<Longrightarrow> cache_get c (unit_text block) = Some v \<Longrightarrow>
   plan_step c m st block = st\<lparr>all_translations := (all_translations st)(unit_text block \<mapsto> v)\<rparr>"
  by (simp add: plan_step_def well_formed_def unit_text_def Let_def)

lemma plan_step_uncached:
  "well_formed block \<Longrightarrow> cache_get c (unit_text block) = None \<Longrightarrow>
   plan_step c m st block =
     (let st1 = (if m < int (length (current_batch_text st)) + int (length (unit_text block @ SPLIT_TOKEN))
                    \<and> current_batch_text st \<noteq> [] then close_batch st else st)
      in st1\<lparr>current_batch_text := current_batch_text st1 @ unit_text block @ SPLIT_TOKEN,
             current_batch_indices := current_batch_indices st1 @ [unit_text block]\<rparr>)"
  by (simp add: plan_step_def well_formed_def unit_text_def Let_def)

lemma pending_step:
  "pending (plan_step c m st block) = pending st @ uncached_texts c [block]"
proof (cases "well_formed block")
  case False
  then show ?thesis by (simp add: plan_step_malformed uncached_texts_def unit_texts_def)
next
  case wf: True
  show ?thesis
  proof (cases "cache_get c (unit_text block)")
    case None
    with wf show ?thesis
      by (simp add: plan_step_uncached pending_def uncached_texts_def unit_texts_def close_batch_def Let_def)
  next
    case (Some v)
    with wf show ?thesis
      by (simp add: plan_step_cached pending_def uncached_texts_def unit_texts_def)
  qed
qed

lemma plan_inv_step:
  assumes "plan_inv m st"
  shows "plan_inv m (plan_step c m st block)"
proof (cases "well_formed block")
  case False
  with assms show ?thesis by (simp add: plan_step_malformed)
next
  case wf: True
  from assms have A: "list_all (within_budget m) (batches st)"
    and B: "current_batch_text st = batch_string (current_batch_indices st)"
    and C: "current_batch_indices st = [] \<or>
            within_budget m (batch_string (current_batch_indices st), current_batch_indices st)"
    by (auto simp add: plan_inv_def)
  show ?thesis
  proof (cases "cache_get c (unit_text block)")
    case (Some v)
    with wf A B C show ?thesis by (simp add: plan_step_cached plan_inv_def)
  next
    case None
    let ?t = "unit_text block"
    let ?idx = "current_batch_indices st"
    show ?thesis
    proof (cases "?idx = []")
      case True
      with B have "current_batch_text st = []" by (simp add: batch_string_simps)
      with True wf None A show ?thesis
        by (simp add: plan_step_uncached plan_inv_def within_budget_def batch_string_def) linarith
    next
      case False
      with B have ne: "current_batch_text st \<noteq> []" by (simp add: batch_string_empty)
      from False C have wb: "within_budget m (batch_string ?idx, ?idx)" by simp
      show ?thesis
      proof (cases "m < int (length (batch_string ?idx)) + int (length (?t @ SPLIT_TOKEN))")
        case True
        with ne wf None A B wb show ?thesis
          by (simp add: plan_step_uncached plan_inv_def within_budget_def batch_string_simps
                batch_string_def close_batch_def) linarith
      next
        case nofit: False
        have "within_budget m (batch_string (?idx @ [?t]), ?idx @ [?t])"
          using nofit by (simp add: within_budget_def batch_string_simps)
        with ne wf None A B nofit show ?thesis
          by (simp add: plan_step_uncached plan_inv_def batch_string_simps)
      qed
    qed
  qed
qed


lemma uncached_texts_Cons:
  "uncached_texts c (b # bs) = uncached_texts c [b] @ uncached_texts c bs"
  by (simp add: uncached_texts_def unit_texts_def)

lemma pending_foldl:
  "pending (foldl (plan_step c m) st blocks) = pending st @ uncached_texts c blocks"
proof (induction blocks arbitrary: st)
  case Nil
  show ?case by (simp add: uncached_texts_def unit_texts_def)
next
  case (Cons b bs)
  have "pending (foldl (plan_step c m) st (b # bs)) =
        pending (plan_step c m st b) @ uncached_texts c bs"
    by (simp add: Cons.IH)
  also have "\<dots> = pending st @ uncached_texts c [b] @ uncached_texts c bs"
    by (simp add: pending_step)
  finally show ?case by (simp add: uncached_texts_Cons [of c b bs])
qed

lemma plan_inv_foldl:
  "plan_inv m st \<Longrightarrow> plan_inv m (foldl (plan_step c m) st blocks)"
  by (induction blocks arbitrary: st) (simp_all add: plan_inv_step)

lemma plan_inv_init: "plan_inv m plan_init"
  by (simp add: plan_inv_def plan_init_def batch_string_def)

lemma plan_inv_loop: "plan_inv m (plan_loop c m blocks)"
  by (simp add: plan_loop_def plan_inv_foldl plan_inv_init)

lemma pending_loop: "pending (plan_loop c m blocks) = uncached_texts c blocks"
  by (simp add: plan_loop_def pending_foldl) (simp add: pending_def plan_init_def)

lemma flush_sources:
  assumes "plan_inv m st"
  shows "concat (map snd (plan_flush st)) = pending st"
proof -
  from assms have "current_batch_text st = [] \<longleftrightarrow> current_batch_indices st = []"
    by (simp add: plan_inv_def batch_string_empty)
  then show ?thesis by (simp add: plan_flush_def pending_def)
qed

lemma flush_budget:
  assumes "plan_inv m st"
  shows "list_all (within_budget m) (plan_flush st)"
proof -
  from assms have A: "list_all (within_budget m) (batches st)"
    and B: "current_batch_text st = batch_string (current_batch_indices st)"
    and C: "current_batch_indices st = [] \<or>
            within_budget m (batch_string (current_batch_indices st), current_batch_indices st)"
    by (auto simp add: plan_inv_def)
  show ?thesis
  proof (cases "current_batch_indices st = []")
    case True
    with A B show ?thesis by (simp add: plan_flush_def batch_string_simps)
  next
    case False
    with A B C show ?thesis by (simp add: plan_flush_def)
  qed
qed

lemma plan_batches_sources:
  "concat (map snd (plan_batches c m blocks)) = uncached_texts c blocks"
  by (simp add: plan_batches_def flush_sources [OF plan_inv_loop] pending_loop)

lemma plan_batches_budget:
  "list_all (within_budget m) (plan_batches c m blocks)"
  by (simp add: plan_batches_def flush_budget [OF plan_inv_loop])

lemma plan_batches_strings:
  "map fst (plan_batches c m blocks) = map (\<lambda>b. batch_string (snd b)) (plan_batches c m blocks)"
  using plan_batches_budget [of m c blocks]
  by (induction "plan_batches c m blocks") (auto simp add: within_budget_def list_all_iff)

text \<open>
  Claim C1, as the code has it.  The planner does not look for repeated texts: the source
  lists of the batches, read in batch order, are exactly the clean texts of the
  well-formed units that are not cache hits, one entry for each such unit, in file order.
  So the texts in the batches are the uncached clean texts and no others, each batch
  string is made of its own source list, and a clean text stands once in the batches
  exactly when no two uncached units share it.
\<close>

theorem batches_hold_each_uncached_unit:
  "concat (map snd (plan_batches c max_chars indexed_blocks)) = uncached_texts c indexed_blocks \<and>
   set (concat (map snd (plan_batches c max_chars indexed_blocks))) =
     {t. t \<in> set (unit_texts indexed_blocks) \<and> cache_get c t = None} \<and>
   map fst (plan_batches c max_chars indexed_blocks) =
     map (\<lambda>b. batch_string (snd b)) (plan_batches c max_chars indexed_blocks) \<and>
   (distinct (concat (map snd (plan_batches c max_chars indexed_blocks))) \<longleftrightarrow>
      distinct (uncached_texts c indexed_blocks))"
proof -
  have src: "concat (map snd (plan_batches c max_chars indexed_blocks)) =
             uncached_texts c indexed_blocks"
    by (rule plan_batches_sources)
  have "set (uncached_texts c indexed_blocks) =
        {t. t \<in> set (unit_texts indexed_blocks) \<and> cache_get c t = None}"
    by (auto simp add: uncached_texts_def)
  with src show ?thesis
    by (simp add: plan_batches_strings)
qed

text \<open>
  Claim C1 as stated fails: a file of two units that carry the same uncached text
  \<^verbatim>\<open>Hi\<close> puts it twice into one batch when the budget allows, and into two batches when
  it does not.
\<close>

theorem repeated_text_counterexample:
  "srt_units (\<lambda>c. False) (unit_a @ unit_b) = Inr [unit_a, unit_b] \<and>
   plan_batches Map.empty 45000 [unit_a, unit_b] =
     [(ascii ''Hi<DEEPL_SPLIT_TOKEN>Hi<DEEPL_SPLIT_TOKEN>'', [ascii ''Hi'', ascii ''Hi''])] \<and>
   plan_batches Map.empty 30 [unit_a, unit_b] =
     [(ascii ''Hi<DEEPL_SPLIT_TOKEN>'', [ascii ''Hi'']),
      (ascii ''Hi<DEEPL_SPLIT_TOKEN>'', [ascii ''Hi''])] \<and>
   \<not> distinct (concat (map snd (plan_batches Map.empty 45000 [unit_a, unit_b])))"
  by (simp add: two_units_file) (simp add: plan_defs string_defs unit_a_def unit_b_def)



section \<open>The cache store\<close>

text \<open>
  Claim C7.  A missing cache file and a file that is not JSON both give the empty cache,
  as the claim says.  A cache file whose bytes are not valid UTF-8 does not: the read
  raises \<^verbatim>\<open>UnicodeDecodeError\<close>, which the handler for \<^verbatim>\<open>json.JSONDecodeError\<close> does not
  catch, so the constructor fails and the run ends before any file is processed.
\<close>

theorem cache_load_undecodable:
  "TranslationCache Missing = Inr Map.empty \<and>
   TranslationCache Unparsable = Inr Map.empty \<and>
   TranslationCache Undecodable = Inl UnicodeDecodeError \<and>
   run_files n Undecodable other_digits svcs max_chars srt_files = \<lparr>printed = Some n, exit_code = 1, files_done = []\<rparr>"
  by (simp add: TranslationCache_def load_cache_def run_files_def)

section \<open>The quota guard\<close>






section \<open>Reassembly\<close>

lemma join_str_snoc:
  "join_str sep (xs @ [y]) = concat (map (\<lambda>x. x @ sep) xs) @ y"
  by (induction sep xs rule: join_str.induct) simp_all

lemma join_str_terminated:
  "xs \<noteq> [] \<Longrightarrow> join_str sep xs @ sep = concat (map (\<lambda>x. x @ sep) xs)"
  by (induction sep xs rule: join_str.induct) simp_all

lemma render_block_well_formed:
  assumes "split_str NL block = index # timestamp # text_lines"
  shows "render_block all_tr c block =
           index @ NL @ timestamp @ NL @
           concat (map (\<lambda>l. l @ NL) (filter (\<lambda>l. strip_str l \<noteq> []) text_lines)) @
           translated_for all_tr c (english_text_of (index # timestamp # text_lines))"
proof -
  have "render_block all_tr c block =
        join_str NL (([index, timestamp] @ filter (\<lambda>l. strip_str l \<noteq> []) text_lines) @
          [translated_for all_tr c (english_text_of (index # timestamp # text_lines))])"
    using assms by (simp add: render_block_def Let_def)
  then show ?thesis
    by (simp only: join_str_snoc) simp
qed


lemma translated_for_cases:
  "(all_tr t = Some v \<and> v \<noteq> [] \<longrightarrow> translated_for all_tr c t = v) \<and>
   ((all_tr t = None \<or> all_tr t = Some []) \<and> cache_get c t = Some w \<and> w \<noteq> [] \<longrightarrow>
      translated_for all_tr c t = w) \<and>
   ((all_tr t = None \<or> all_tr t = Some []) \<and> (cache_get c t = None \<or> cache_get c t = Some []) \<longrightarrow>
      translated_for all_tr c t = FAILED_TEXT)"
  by (auto simp add: translated_for_def split: option.splits list.splits)

lemma reassemble_nonempty:
  "indexed_blocks \<noteq> [] \<Longrightarrow>
   reassemble indexed_blocks all_tr c =
     concat (map (\<lambda>b. render_block all_tr c b @ NL @ NL) indexed_blocks)"
  using join_str_terminated [of "map (render_block all_tr c) indexed_blocks" "NL @ NL"]
  by (simp add: reassemble_def comp_def)

text \<open>
  Claim C5.  For a unit whose lines are an index line, a time-range line and text lines,
  the block emitted is the index line and the time-range line unchanged, the text lines
  that are not blank, and one translated line, each line but the last followed by a
  newline.  The translated line is the entry of the result map for the unit's clean text;
  without one, the entry of the cache; without that, the placeholder (an entry that is
  the empty string counts as none, as Python's truth test has it).  The output is every
  block followed by a blank line.
\<close>

theorem reassembly_emits_blocks:
  "(split_str NL block = index # timestamp # text_lines \<longrightarrow>
      render_block all_tr c block =
        index @ NL @ timestamp @ NL @
        concat (map (\<lambda>l. l @ NL) (filter (\<lambda>l. strip_str l \<noteq> []) text_lines)) @
        translated_for all_tr c (strip_str (strip_annotations (join_str (ascii '' '') text_lines)))) \<and>
   (all_tr t = Some v \<and> v \<noteq> [] \<longrightarrow> translated_for all_tr c t = v) \<and>
   ((all_tr t = None \<or> all_tr t = Some []) \<and> cache_get c t = Some w \<and> w \<noteq> [] \<longrightarrow>
      translated_for all_tr c t = w) \<and>
   ((all_tr t = None \<or> all_tr t = Some []) \<and> (cache_get c t = None \<or> cache_get c t = Some []) \<longrightarrow>
      translated_for all_tr c t = FAILED_TEXT) \<and>
   (indexed_blocks \<noteq> [] \<longrightarrow>
      reassemble indexed_blocks all_tr c =
        concat (map (\<lambda>b. render_block all_tr c b @ NL @ NL) indexed_blocks))"
proof -
  have "split_str NL block = index # timestamp # text_lines \<Longrightarrow>
      render_block all_tr c block =
        index @ NL @ timestamp @ NL @
        concat (map (\<lambda>l. l @ NL) (filter (\<lambda>l. strip_str l \<noteq> []) text_lines)) @
        translated_for all_tr c (strip_str (strip_annotations (join_str (ascii '' '') text_lines)))"
    using render_block_well_formed [of block index timestamp text_lines all_tr c]
    by (simp add: english_text_of_def)
  with translated_for_cases [of all_tr t v c w] reassemble_nonempty [of indexed_blocks all_tr c]
  show ?thesis by blast
qed

theorem reassembly_emits_blocks_witness:
  "split_str NL unit_c =
     [ascii ''1'', ascii ''00:00:01,000 --> 00:00:02,000'', ascii ''Hello [music] world'', []] \<and>
   render_block [ascii ''Hello  world'' \<mapsto> hello_zh] Map.empty unit_c =
     ascii ''1'' @ NL @ ascii ''00:00:01,000 --> 00:00:02,000'' @ NL @
     ascii ''Hello [music] world'' @ NL @ hello_zh \<and>
   translated_for Map.empty [ascii ''Hello  world'' \<mapsto> hello_zh] (ascii ''Hello  world'') = hello_zh \<and>
   translated_for [ascii ''Hello  world'' \<mapsto> []] Map.empty (ascii ''Hello  world'') = FAILED_TEXT \<and>
   reassemble [unit_c] [ascii ''Hello  world'' \<mapsto> hello_zh] Map.empty =
     ascii ''1'' @ NL @ ascii ''00:00:01,000 --> 00:00:02,000'' @ NL @
     ascii ''Hello [music] world'' @ NL @ hello_zh @ NL @ NL"
  using reassembly_emits_blocks [where block = unit_c and index = "ascii ''1''"
      and timestamp = "ascii ''00:00:01,000 --> 00:00:02,000''"
      and text_lines = "[ascii ''Hello [music] world'', []]"
      and all_tr = "[ascii ''Hello  world'' \<mapsto> hello_zh]" and c = Map.empty
      and t = "ascii ''Hello  world''" and v = hello_zh and w = hello_zh
      and indexed_blocks = "[unit_c]"]
    reassembly_emits_blocks [where block = unit_c and index = "ascii ''1''"
      and timestamp = "ascii ''00:00:01,000 --> 00:00:02,000''"
      and text_lines = "[ascii ''Hello [music] world'', []]"
      and all_tr = Map.empty and c = "[ascii ''Hello  world'' \<mapsto> hello_zh]"
      and t = "ascii ''Hello  world''" and v = hello_zh and w = hello_zh
      and indexed_blocks = "[unit_c]"]
    reassembly_emits_blocks [where block = unit_c and index = "ascii ''1''"
      and timestamp = "ascii ''00:00:01,000 --> 00:00:02,000''"
      and text_lines = "[ascii ''Hello [music] world'', []]"
      and all_tr = "[ascii ''Hello  world'' \<mapsto> []]" and c = Map.empty
      and t = "ascii ''Hello  world''" and v = hello_zh and w = hello_zh
      and indexed_blocks = "[unit_c]"]
  by (simp add: render_block_def reassemble_def translated_for_def cache_get_def unit_c_def
        string_defs hello_zh_def FAILED_TEXT_def)

section \<open>Units with fewer than two lines\<close>

lemma split_acc_newlines: "length (split_acc NL acc s) = Suc (count_list s 10)"
  by (induction s arbitrary: acc) (simp_all add: NL_def)

lemma split_str_newlines: "length (split_str NL s) = Suc (count_list s 10)"
  by (simp add: split_str_def split_acc_newlines)

lemma count_list_app: "count_list (xs @ ys) a = count_list xs a + count_list ys a"
  by (induction xs) simp_all

lemma re_split_shape:
  "\<exists>pre pairs. re_split d acc s = pre # concat (map (\<lambda>p. [fst p, snd p]) pairs) \<and>
               (\<forall>p \<in> set pairs. 2 \<le> count_list (fst p) 10)"
proof (induction d acc s rule: re_split.induct)
  case (1 d acc)
  show ?case
    by (rule exI [of _ "rev acc"], rule exI [of _ "[]"]) simp
next
  case (2 d acc x xs)
  show ?case
  proof (cases "match_separator d (x # xs)")
    case None
    from 2(1) [OF None] obtain pre pairs where
      "re_split d (x # acc) xs = pre # concat (map (\<lambda>p. [fst p, snd p]) pairs)"
      "\<forall>p \<in> set pairs. 2 \<le> count_list (fst p) 10"
      by blast
    with None show ?thesis by auto
  next
    case (Some r)
    from 2(2) [OF Some] obtain pre pairs where
      rest: "re_split d [] r = pre # concat (map (\<lambda>p. [fst p, snd p]) pairs)" and
      ok: "\<forall>p \<in> set pairs. 2 \<le> count_list (fst p) 10"
      by blast
    from match_separator_split [OF Some] obtain m where
      m: "x # xs = m @ r" and cnt: "2 \<le> count_list m 10"
      by blast
    let ?m = "take (Suc (length xs) - length r) (x # xs)"
    from m have "length (x # xs) = length (m @ r)" by (rule arg_cong)
    then have len: "Suc (length xs) - length r = length m" by simp
    have "take (length m) (m @ r) = m" by simp
    with m len have "?m = m" by simp
    with Some rest have
      "re_split d acc (x # xs) = rev acc # concat (map (\<lambda>p. [fst p, snd p]) ((m, pre) # pairs))"
      by simp
    moreover from ok cnt have "\<forall>p \<in> set ((m, pre) # pairs). 2 \<le> count_list (fst p) 10"
      by simp
    ultimately show ?thesis by blast
  qed
qed

lemma pair_up_pairs:
  "pair_up (concat (map (\<lambda>p. [fst p, snd p]) pairs)) = Inr (map (\<lambda>p. fst p @ snd p) pairs)"
  by (induction pairs) simp_all

text \<open>
  Cutting a text into units never fails, and every unit has at least three lines: its
  index line, its time-range line and what follows the separator.  So the test
  \<^verbatim>\<open>len(lines) < 2\<close> of the two loops is false for every unit that comes from a file.
\<close>

lemma srt_units_well_formed:
  "\<exists>blocks. srt_units d content = Inr blocks \<and>
            (\<forall>b \<in> set blocks. 3 \<le> length (split_str NL b))"
proof -
  from re_split_shape [of d "[]" "strip_str content"] obtain pre pairs where
    shape: "re_split d [] (strip_str content) = pre # concat (map (\<lambda>p. [fst p, snd p]) pairs)" and
    ok: "\<forall>p \<in> set pairs. 2 \<le> count_list (fst p) 10"
    by blast
  then have "srt_units d content = Inr (map (\<lambda>p. fst p @ snd p) pairs)"
    by (simp add: srt_units_def pair_up_pairs)
  moreover from ok have
    "\<forall>b \<in> set (map (\<lambda>p. fst p @ snd p) pairs). 3 \<le> length (split_str NL b)"
    by (auto simp add: split_str_newlines count_list_app)
  ultimately show ?thesis by blast
qed

text \<open>
  So \<open>process_srt_file\<close> on a file's text is \<open>process_blocks\<close> on the units of the
  text, and what is proved of \<open>process_blocks\<close> for every list of units holds for every
  file.
\<close>

lemma process_srt_file_units:
  "\<exists>blocks. srt_units d content = Inr blocks \<and>
            process_srt_file d svc m content c = process_blocks svc m blocks c"
  using srt_units_well_formed [of d content] by (auto simp add: process_srt_file_def)





section \<open>Recording a batch response\<close>










section \<open>Runs on a warm cache\<close>

lemma plan_step_translations:
  "all_translations (plan_step c m st block) t =
     (if well_formed block \<and> unit_text block = t \<and> cache_get c t \<noteq> None
      then cache_get c t else all_translations st t)"
proof (cases "well_formed block")
  case False
  then show ?thesis by (simp add: plan_step_malformed)
next
  case wf: True
  show ?thesis
  proof (cases "cache_get c (unit_text block)")
    case None
    with wf show ?thesis
      by (auto simp add: plan_step_uncached close_batch_def Let_def)
  next
    case (Some v)
    with wf show ?thesis by (auto simp add: plan_step_cached)
  qed
qed

lemma foldl_translations:
  "all_translations (foldl (plan_step c m) st blocks) t =
     (if t \<in> set (unit_texts blocks) \<and> cache_get c t \<noteq> None
      then cache_get c t else all_translations st t)"
proof (induction blocks arbitrary: st)
  case Nil
  show ?case by (simp add: unit_texts_def)
next
  case (Cons b bs)
  show ?case
    by (simp add: Cons.IH plan_step_translations) (auto simp add: unit_texts_def)
qed

lemma plan_loop_translations:
  "all_translations (plan_loop c m blocks) t =
     (if t \<in> set (unit_texts blocks) then cache_get c t else None)"
  by (simp add: plan_loop_def foldl_translations) (simp add: plan_init_def)

lemma agree_on_record_segment:
  "agree_on U s \<Longrightarrow> agree_on U (record_segment segs p s)"
  by (cases p) (simp add: agree_on_def record_segment_def cache_set_def Let_def)

lemma agree_on_fold:
  "agree_on U s \<Longrightarrow> agree_on U (fold (record_segment segs) ps s)"
  by (induction ps arbitrary: s) (simp_all add: agree_on_record_segment)

lemma agree_on_record_batch:
  "agree_on U s \<Longrightarrow> agree_on U (record_batch resp texts s)"
  by (simp add: record_batch_def agree_on_fold)

lemma agree_on_posts: "agree_on U (s\<lparr>posts := p\<rparr>) = agree_on U s"
  by (simp add: agree_on_def)

lemma agree_on_translate_batches:
  "agree_on U s \<Longrightarrow> translate_batches svc bs s = (e, s') \<Longrightarrow> agree_on U s'"
proof (induction bs arbitrary: s)
  case Nil
  then show ?case by simp
next
  case (Cons b bs)
  let ?s1 = "if posts_request (fst b) then s\<lparr>posts := posts s @ [fst b]\<rparr> else s"
  from Cons.prems(1) have a1: "agree_on U ?s1" by (simp add: agree_on_posts)
  show ?case
  proof (cases "translate svc (length (posts s)) (fst b)")
    case (Inl x)
    with Cons.prems(2) have "s' = ?s1" by (simp add: Let_def)
    with a1 show ?thesis by simp
  next
    case (Inr r)
    with Cons.prems(2) have "translate_batches svc bs (record_batch r (snd b) ?s1) = (e, s')"
      by (simp add: Let_def)
    with agree_on_record_batch [OF a1] show ?thesis by (rule Cons.IH)
  qed
qed

lemma translated_for_agree:
  "all_tr t = cache_get c t \<Longrightarrow> translated_for all_tr c t = translated_for Map.empty c t"
  by (simp add: translated_for_def split: option.splits list.splits)

lemma render_block_agree:
  assumes "well_formed block \<Longrightarrow> all_tr (unit_text block) = cache_get c (unit_text block)"
  shows "render_block all_tr c block = render_block Map.empty c block"
proof (cases "well_formed block")
  case False
  then show ?thesis by (simp add: render_block_def well_formed_def Let_def)
next
  case True
  with assms have "translated_for all_tr c (unit_text block) = translated_for Map.empty c (unit_text block)"
    by (simp add: translated_for_agree)
  then show ?thesis by (simp add: render_block_def unit_text_def Let_def)
qed

lemma reassemble_agree:
  assumes "\<forall>t \<in> set (unit_texts blocks). all_tr t = cache_get c t"
  shows "reassemble blocks all_tr c = reassemble blocks Map.empty c"
proof -
  have "map (render_block all_tr c) blocks = map (render_block Map.empty c) blocks"
  proof (rule map_cong [OF refl])
    fix b assume "b \<in> set blocks"
    with assms have "well_formed b \<Longrightarrow> all_tr (unit_text b) = cache_get c (unit_text b)"
      by (simp add: unit_texts_def)
    then show "render_block all_tr c b = render_block Map.empty c b"
      by (rule render_block_agree)
  qed
  then show ?thesis by (simp only: reassemble_def)
qed

lemma process_blocks_output:
  assumes "process_blocks svc m blocks c0 = (Written out, c1, ps)"
  shows "out = reassemble blocks Map.empty c1"
proof -
  let ?st = "plan_loop c0 m blocks"
  let ?s0 = "\<lparr>result_map = all_translations ?st, store = c0, posts = []\<rparr>"
  obtain e s where tb: "translate_batches svc (plan_flush ?st) ?s0 = (e, s)"
    by (cases "translate_batches svc (plan_flush ?st) ?s0")
  have "agree_on (set (unit_texts blocks)) ?s0"
    by (simp add: agree_on_def plan_loop_translations cache_get_def)
  then have ag: "agree_on (set (unit_texts blocks)) s"
    using tb by (rule agree_on_translate_batches)
  from assms tb have "out = reassemble blocks (result_map s) (store s)" and "c1 = store s"
    by (auto simp add: process_blocks_def Let_def split: option.splits exn.splits)
  with ag show ?thesis
    by (simp add: agree_on_def reassemble_agree cache_get_def)
qed

lemma warm_no_batches:
  assumes "\<forall>t \<in> set (unit_texts blocks). cache_get c t \<noteq> None"
  shows "plan_batches c m blocks = []"
proof (rule ccontr)
  assume "plan_batches c m blocks \<noteq> []"
  then obtain b bs where eq: "plan_batches c m blocks = b # bs"
    by (cases "plan_batches c m blocks") auto
  with plan_batches_budget [of m c blocks] have "snd b \<noteq> []"
    by (simp add: within_budget_def)
  moreover from assms have "uncached_texts c blocks = []"
    by (simp add: uncached_texts_def filter_empty_conv)
  with plan_batches_sources [of c m blocks] eq have "snd b = []" by simp
  ultimately show False by simp
qed

lemma process_blocks_warm:
  assumes "\<forall>t \<in> set (unit_texts blocks). cache_get c t \<noteq> None"
  shows "process_blocks svc m blocks c = (Written (reassemble blocks Map.empty c), c, [])"
proof -
  from warm_no_batches [OF assms, of m] have "plan_flush (plan_loop c m blocks) = []"
    by (simp add: plan_batches_def)
  then have "process_blocks svc m blocks c =
      (Written (reassemble blocks (all_translations (plan_loop c m blocks)) c), c, [])"
    by (simp add: process_blocks_def Let_def)
  moreover have "reassemble blocks (all_translations (plan_loop c m blocks)) c =
      reassemble blocks Map.empty c"
    by (rule reassemble_agree) (simp add: plan_loop_translations)
  ultimately show ?thesis by simp
qed

text \<open>
  Claim C2.  When the cache holds an entry for the clean text of every unit of the file,
  the planner builds no batch and the run posts no request, whatever the remote service
  would answer; it writes the output file and leaves the cache as it is.  If that cache
  is what an earlier run on the same file left behind, the output written now is the
  output the earlier run wrote.
\<close>

theorem warm_cache_run:
  assumes "\<forall>t \<in> set (unit_texts indexed_blocks). cache_get c t \<noteq> None"
  shows "plan_batches c max_chars indexed_blocks = [] \<and>
         (\<exists>out. process_blocks svc max_chars indexed_blocks c = (Written out, c, [])) \<and>
         (\<forall>svc0 max0 c0 out0 posts0.
            process_blocks svc0 max0 indexed_blocks c0 = (Written out0, c, posts0) \<longrightarrow>
            process_blocks svc max_chars indexed_blocks c = (Written out0, c, []))"
proof -
  note warm = process_blocks_warm [OF assms, of svc max_chars]
  have "process_blocks svc max_chars indexed_blocks c = (Written out0, c, [])"
    if "process_blocks svc0 max0 indexed_blocks c0 = (Written out0, c, posts0)"
    for svc0 max0 c0 out0 posts0
    using process_blocks_output [OF that] warm by simp
  with warm warm_no_batches [OF assms, of max_chars] show ?thesis by blast
qed

lemma first_run:
  "process_blocks (answers (ascii ''X<DEEPL_SPLIT_TOKEN>Y<DEEPL_SPLIT_TOKEN>'')) 45000
     [unit_a, unit_b] Map.empty =
   (Written out_ab, [ascii ''Hi'' \<mapsto> ascii ''Y''],
    [ascii ''Hi<DEEPL_SPLIT_TOKEN>Hi<DEEPL_SPLIT_TOKEN>''])"
  by (simp add: process_blocks_def plan_defs string_defs unit_a_def unit_b_def answers_def
        translate_def posts_request_def record_batch_def record_segment_def cache_set_def
        reassemble_def render_block_def translated_for_def out_ab_def)

theorem warm_cache_run_witness:
  "process_blocks (answers (ascii ''X<DEEPL_SPLIT_TOKEN>Y<DEEPL_SPLIT_TOKEN>'')) 45000
     [unit_a, unit_b] Map.empty =
     (Written out_ab, [ascii ''Hi'' \<mapsto> ascii ''Y''],
      [ascii ''Hi<DEEPL_SPLIT_TOKEN>Hi<DEEPL_SPLIT_TOKEN>'']) \<and>
   unit_texts [unit_a, unit_b] = [ascii ''Hi'', ascii ''Hi''] \<and>
   plan_batches [ascii ''Hi'' \<mapsto> ascii ''Y''] 45000 [unit_a, unit_b] = [] \<and>
   process_blocks refuses 45000 [unit_a, unit_b] [ascii ''Hi'' \<mapsto> ascii ''Y''] =
     (Written out_ab, [ascii ''Hi'' \<mapsto> ascii ''Y''], [])"
proof -
  have texts: "unit_texts [unit_a, unit_b] = [ascii ''Hi'', ascii ''Hi'']"
    by (simp add: unit_defs string_defs unit_a_def unit_b_def)
  have warm: "\<forall>t \<in> set (unit_texts [unit_a, unit_b]).
                cache_get [ascii ''Hi'' \<mapsto> ascii ''Y''] t \<noteq> None"
    by (simp add: texts cache_get_def)
  from warm_cache_run [OF warm, of 45000 refuses] first_run texts
  show ?thesis by blast
qed

end
